theory Spec2Isabelle
  imports Complex_Main "HOL-Library.Word" "HOL-Library.Sublist"
begin

section \<open>JavaScript values and strings\<close>

text \<open>
  The component \<^verbatim>\<open>NFTViewer.jsx\<close> works on JavaScript strings and on the JSON
  document that the metadata request returns. A JavaScript string is a sequence of
  16-bit code units; \<open>js\<close> turns an ASCII literal into such a sequence.
\<close>

type_synonym jschar = "16 word"
type_synonym jsstring = "jschar list"

definition js :: "string \<Rightarrow> jsstring" where
  "js s = map of_char s"

text \<open>
  A parsed JSON document, together with \<open>undefined\<close> (what reading a missing property
  gives). A number is kept by its numeric value; only its test against zero is used.
  An object is the list of its own properties, each name once.
\<close>

datatype jsval =
    JUndefined
  | JNull
  | JBool bool
  | JNum rat
  | JStr jsstring
  | JArr "jsval list"
  | JObj "(jsstring \<times> jsval) list"

datatype js_error = TypeError

text \<open>JavaScript's \<^verbatim>\<open>Boolean(v)\<close>, the test behind \<^verbatim>\<open>!v\<close>, \<^verbatim>\<open>a && b\<close> and \<^verbatim>\<open>find(Boolean)\<close>.\<close>

fun truthy :: "jsval \<Rightarrow> bool" where
  "truthy JUndefined = False"
| "truthy JNull = False"
| "truthy (JBool b) = b"
| "truthy (JNum n) = (n \<noteq> 0)"
| "truthy (JStr s) = (s \<noteq> [])"
| "truthy (JArr xs) = True"
| "truthy (JObj kvs) = True"

subsection \<open>String methods\<close>

text \<open>\<^verbatim>\<open>s.startsWith(p)\<close> and \<^verbatim>\<open>s.includes(p)\<close>.\<close>

definition startsWith :: "jsstring \<Rightarrow> jsstring \<Rightarrow> bool" where
  "startsWith s p = prefix p s"

definition includes_js :: "jsstring \<Rightarrow> jsstring \<Rightarrow> bool" where
  "includes_js s p = sublist p s"

text \<open>
  \<^verbatim>\<open>s.replace(pat, rep)\<close> with a string pattern: the first occurrence of \<open>pat\<close> is
  replaced, the rest of the string is kept. (The replacement used below holds no
  \<^verbatim>\<open>$\<close>, so it is inserted as it is.)
\<close>

fun replace :: "jsstring \<Rightarrow> jsstring \<Rightarrow> jsstring \<Rightarrow> jsstring" where
  "replace [] pat rep = (if pat = [] then rep else [])"
| "replace (c # cs) pat rep =
     (if prefix pat (c # cs) then rep @ drop (length pat) (c # cs)
      else c # replace cs pat rep)"

section \<open>URL normalization: \<^verbatim>\<open>ipfsToHttp\<close>\<close>

text \<open>
  \<^verbatim>\<open>
  function ipfsToHttp(url) {
    if (!url) return url;
    if (url.startsWith('ipfs://')) {
      return url.replace('ipfs://', 'https://ipfs.io/ipfs/');
    }
    if (url.includes('ipfs/') && url.startsWith('http')) return url;
    return url;
  }
  \<close>
  \<open>rewrite_ipfs\<close> is the body after the first line, on a string. \<open>ipfsToHttp\<close> is the
  whole function on any value: a falsy argument is returned as it is, and a truthy
  argument that is not a string has no \<^verbatim>\<open>startsWith\<close> method, so the call throws a
  \<^verbatim>\<open>TypeError\<close>.
\<close>

definition rewrite_ipfs :: "jsstring \<Rightarrow> jsstring" where
  "rewrite_ipfs url =
     (if startsWith url (js ''ipfs://'')
      then replace url (js ''ipfs://'') (js ''https://ipfs.io/ipfs/'')
      else if includes_js url (js ''ipfs/'') \<and> startsWith url (js ''http'') then url
      else url)"

definition ipfsToHttp :: "jsval \<Rightarrow> js_error + jsval" where
  "ipfsToHttp url =
     (if \<not> truthy url then Inr url
      else case url of
             JStr s \<Rightarrow> Inr (JStr (rewrite_ipfs s))
           | _ \<Rightarrow> Inl TypeError)"

section \<open>Classification and render dispatch\<close>

text \<open>
  The render function tests the asset URL against three regular expressions, all with
  the flag \<^verbatim>\<open>i\<close> (ignore case):
  \<^verbatim>\<open>
  {assetUrl && assetUrl.match(/\.gltf$|\.glb$|model\/(.*)gltf/i) && (<ModelGLTF .../>)}
  {assetUrl && assetUrl.match(/\.png$|\.jpg$|\.jpeg$|\.webp$|image\//i) && (<mesh>...<img .../>...</mesh>)}
  {assetUrl && !assetUrl.match(/\.gltf$|\.glb$|\.png$|\.jpg$|\.jpeg$|\.webp$|image\//i) && (<Html>...<iframe .../>...</Html>)}
  \<close>
  Every character of the three patterns is an ASCII letter, a dot or a slash. Under the
  flag \<^verbatim>\<open>i\<close> (without the flag \<^verbatim>\<open>u\<close>) an ASCII letter of a pattern matches
  exactly its lower-case and its upper-case ASCII form, and a dot or slash matches only
  itself, so two code units are compared after \<open>fold_case\<close>, which maps \<open>a\<close>..\<open>z\<close> to
  \<open>A\<close>..\<open>Z\<close>. There is no flag \<^verbatim>\<open>m\<close>, so \<^verbatim>\<open>$\<close> matches at the end of the string
  only. The unescaped dot of \<^verbatim>\<open>(.*)\<close> matches every code unit but a line terminator.
\<close>

definition fold_case :: "jschar \<Rightarrow> jschar" where
  "fold_case c = (if 0x61 \<le> c \<and> c \<le> 0x7A then c - 0x20 else c)"

definition line_terminator :: "jschar \<Rightarrow> bool" where
  "line_terminator c = (c = 0x0A \<or> c = 0x0D \<or> c = 0x2028 \<or> c = 0x2029)"

text \<open>A literal of a pattern: at the start of \<open>s\<close>, at its end (\<^verbatim>\<open>lit$\<close>), anywhere in it.\<close>

definition lit_at :: "jsstring \<Rightarrow> jsstring \<Rightarrow> bool" where
  "lit_at lit s = prefix (map fold_case lit) (map fold_case s)"

definition lit_at_end :: "jsstring \<Rightarrow> jsstring \<Rightarrow> bool" where
  "lit_at_end lit s = suffix (map fold_case lit) (map fold_case s)"

definition lit_anywhere :: "jsstring \<Rightarrow> jsstring \<Rightarrow> bool" where
  "lit_anywhere lit s = sublist (map fold_case lit) (map fold_case s)"

text \<open>\<^verbatim>\<open>(.*)lit\<close> at the start of \<open>s\<close>: some code units, none a line terminator, then \<open>lit\<close>.\<close>

fun any_then :: "jsstring \<Rightarrow> jsstring \<Rightarrow> bool" where
  "any_then lit [] = lit_at lit []"
| "any_then lit (c # cs) = (lit_at lit (c # cs) \<or> (\<not> line_terminator c \<and> any_then lit cs))"

text \<open>\<^verbatim>\<open>model\/(.*)gltf\<close> at some position of \<open>s\<close>.\<close>

fun model_hint :: "jsstring \<Rightarrow> bool" where
  "model_hint [] = False"
| "model_hint (c # cs) =
     ((lit_at (js ''model/'') (c # cs) \<and> any_then (js ''gltf'') (drop 6 (c # cs)))
      \<or> model_hint cs)"

text \<open>The three regular expressions, in the order of the source.\<close>

definition model_pattern :: "jsstring \<Rightarrow> bool" where
  "model_pattern u =
     (lit_at_end (js ''.gltf'') u \<or> lit_at_end (js ''.glb'') u \<or> model_hint u)"

definition image_pattern :: "jsstring \<Rightarrow> bool" where
  "image_pattern u =
     (lit_at_end (js ''.png'') u \<or> lit_at_end (js ''.jpg'') u \<or> lit_at_end (js ''.jpeg'') u
      \<or> lit_at_end (js ''.webp'') u \<or> lit_anywhere (js ''image/'') u)"

definition known_pattern :: "jsstring \<Rightarrow> bool" where
  "known_pattern u =
     (lit_at_end (js ''.gltf'') u \<or> lit_at_end (js ''.glb'') u
      \<or> lit_at_end (js ''.png'') u \<or> lit_at_end (js ''.jpg'') u \<or> lit_at_end (js ''.jpeg'') u
      \<or> lit_at_end (js ''.webp'') u \<or> lit_anywhere (js ''image/'') u)"

datatype render_path = Model3D | FlatImage | GenericEmbed

text \<open>
  The children of \<^verbatim>\<open>Suspense\<close> that depend on the asset URL, for a URL that is a
  string: each of the three is rendered when its own condition holds.
\<close>

definition select_paths :: "jsstring \<Rightarrow> render_path list" where
  "select_paths u =
     (if u \<noteq> [] \<and> model_pattern u then [Model3D] else [])
     @ (if u \<noteq> [] \<and> image_pattern u then [FlatImage] else [])
     @ (if u \<noteq> [] \<and> \<not> known_pattern u then [GenericEmbed] else [])"

text \<open>
  The same on the value held in the state cell \<^verbatim>\<open>assetUrl\<close>: a falsy value renders
  nothing, and a truthy value that is not a string has no \<^verbatim>\<open>match\<close> method.
\<close>

definition render_asset :: "jsval \<Rightarrow> js_error + render_path list" where
  "render_asset a =
     (if \<not> truthy a then Inr []
      else case a of
             JStr u \<Rightarrow> Inr (select_paths u)
           | _ \<Rightarrow> Inl TypeError)"

section \<open>Metadata fields\<close>

text \<open>
  Reading one of the asset properties of a truthy value: an object gives its own
  property or \<open>undefined\<close>; a string, number, boolean or array has no property of
  these names. (The read is only made on a truthy value, so never on \<open>null\<close> or
  \<open>undefined\<close>.)
\<close>

definition get_prop :: "jsval \<Rightarrow> jsstring \<Rightarrow> jsval" where
  "get_prop v k =
     (case v of
        JObj kvs \<Rightarrow> (case map_of kvs k of Some x \<Rightarrow> x | None \<Rightarrow> JUndefined)
      | _ \<Rightarrow> JUndefined)"

text \<open>
  \<^verbatim>\<open>
  const candidates = [metadata.animation_url, metadata.image, metadata.image_url,
                      metadata.asset, metadata.animation];
  const first = candidates.find(Boolean);
  \<close>
\<close>

definition asset_fields :: "jsstring list" where
  "asset_fields =
     [js ''animation_url'', js ''image'', js ''image_url'', js ''asset'', js ''animation'']"

definition candidates :: "jsval \<Rightarrow> jsval list" where
  "candidates metadata = map (get_prop metadata) asset_fields"

definition first_asset :: "jsval \<Rightarrow> jsval option" where
  "first_asset metadata = find truthy (candidates metadata)"

section \<open>The component \<^verbatim>\<open>NFTViewer\<close>\<close>

subsection \<open>Props and state\<close>

text \<open>
  The four props that the request effect depends on, all strings with the default
  \<^verbatim>\<open>''\<close>. The three state cells \<^verbatim>\<open>metadata\<close>, \<^verbatim>\<open>assetUrl\<close> and \<^verbatim>\<open>error\<close> start as
  \<^verbatim>\<open>null\<close>, \<^verbatim>\<open>''\<close> and \<^verbatim>\<open>null\<close>.
\<close>

record props =
  metadataUrl :: jsstring
  contractAddress :: jsstring
  tokenId :: jsstring
  providerUrl :: jsstring

text \<open>
  What a run of the request effect is suspended on: the contract call
  \<^verbatim>\<open>await contract.tokenURI(tokenId)\<close>, or the request \<^verbatim>\<open>await axios.get(fixed)\<close>.
\<close>

datatype provider = JsonRpcProvider jsstring | Web3Provider

datatype outbound = TokenURI jsstring jsstring provider | HttpGet jsstring

text \<open>
  Every run of the request effect has its own variable \<^verbatim>\<open>cancelled\<close>, which the two
  \<^verbatim>\<open>async\<close> functions of that run close over. Runs are numbered from 0 in the order
  they are started.
\<close>

record effect_instance =
  cancelled :: bool
  awaiting :: "outbound option"

text \<open>
  The component: its state cells, the runs of the request effect in the order they were
  started, and whether React still has to run the metadata effect (the second
  \<^verbatim>\<open>useEffect\<close>, with the dependency \<^verbatim>\<open>[metadata]\<close>) for the last change of
  \<^verbatim>\<open>metadata\<close>.
\<close>

record component =
  metadata :: jsval
  assetUrl :: jsval
  error :: jsval
  instances :: "effect_instance list"
  derive_due :: bool

definition initial :: component where
  "initial = \<lparr>metadata = JNull, assetUrl = JStr [], error = JNull, instances = [],
     derive_due = False\<rparr>"

text \<open>The three state cells together: the viewer state.\<close>

definition viewer_state :: "component \<Rightarrow> jsval \<times> jsval \<times> jsval" where
  "viewer_state c = (metadata c, assetUrl c, error c)"

subsection \<open>State setters\<close>

text \<open>
  React compares the new value of a dependency with \<^verbatim>\<open>Object.is\<close>: a primitive is
  the same by value, a freshly parsed object or array is never the same as the stored
  one. When \<^verbatim>\<open>metadata\<close> changes, the metadata effect runs after the next render.
\<close>

definition same_value :: "jsval \<Rightarrow> jsval \<Rightarrow> bool" where
  "same_value a b =
     (case b of JArr xs \<Rightarrow> False | JObj kvs \<Rightarrow> False | _ \<Rightarrow> a = b)"

definition setMetadata :: "jsval \<Rightarrow> component \<Rightarrow> component" where
  "setMetadata v c =
     c\<lparr>metadata := v, derive_due := derive_due c \<or> \<not> same_value (metadata c) v\<rparr>"

definition setAssetUrl :: "jsval \<Rightarrow> component \<Rightarrow> component" where
  "setAssetUrl v c = c\<lparr>assetUrl := v\<rparr>"

definition setError :: "jsval \<Rightarrow> component \<Rightarrow> component" where
  "setError v c = c\<lparr>error := v\<rparr>"

subsection \<open>The request effect\<close>

text \<open>
  \<^verbatim>\<open>
  useEffect(() => {
    let cancelled = false;
    async function fetchFromContract() { ... }
    async function fetchFromMetadataUrl() { ... }
    setMetadata(null);
    setAssetUrl('');
    setError(null);
    if (metadataUrl) fetchFromMetadataUrl();
    else if (contractAddress && tokenId) fetchFromContract();
    return () => { cancelled = true; };
  }, [metadataUrl, contractAddress, tokenId, providerUrl]);
  \<close>
  When a dependency changes, React first calls the cleanup function of the previous run,
  which sets that run's \<^verbatim>\<open>cancelled\<close>, and then runs the body again.
\<close>

definition update_instance ::
  "nat \<Rightarrow> (effect_instance \<Rightarrow> effect_instance) \<Rightarrow> component \<Rightarrow> component" where
  "update_instance i f c = c\<lparr>instances := (instances c)[i := f (instances c ! i)]\<rparr>"

definition latest :: "component \<Rightarrow> nat" where
  "latest c = length (instances c) - 1"

definition cleanup :: "component \<Rightarrow> component" where
  "cleanup c =
     (if instances c = [] then c
      else update_instance (latest c) (\<lambda>e. e\<lparr>cancelled := True\<rparr>) c)"

text \<open>The run that is executing (the latest one) suspends at an \<^verbatim>\<open>await\<close>.\<close>

definition suspend :: "outbound \<Rightarrow> component \<Rightarrow> component" where
  "suspend op c = update_instance (latest c) (\<lambda>e. e\<lparr>awaiting := Some op\<rparr>) c"

text \<open>
  The message of the error thrown when no provider can be built:
  \<^verbatim>\<open>'No provider available [em dash] provide providerUrl or connect MetaMask'\<close>,
  with the em dash U+2014.
\<close>

definition no_provider_message :: jsstring where
  "no_provider_message =
     js ''No provider available '' @ [0x2014] @ js '' provide providerUrl or connect MetaMask''"

text \<open>
  \<^verbatim>\<open>
  async function fetchFromContract() {
    try {
      if (!contractAddress || !tokenId) return;
      let provider;
      if (providerUrl) {
        provider = new ethers.providers.JsonRpcProvider(providerUrl);
      } else if (window && window.ethereum) {
        provider = new ethers.providers.Web3Provider(window.ethereum);
      } else {
        throw new Error('No provider available ...');
      }
      const contract = new ethers.Contract(contractAddress, ERC721_ABI, provider);
      const uri = await contract.tokenURI(tokenId);
      const fixed = ipfsToHttp(uri);
      const res = await axios.get(fixed);
      if (cancelled) return;
      setMetadata(res.data);
    } catch (err) {
      console.error('contract fetch err', err);
      setError(err.message);
    }
  }
  \<close>
  The part up to the first \<^verbatim>\<open>await\<close> runs inside the effect; \<open>wallet\<close> says whether
  \<^verbatim>\<open>window.ethereum\<close> is there. The error thrown without a provider is caught by the
  \<^verbatim>\<open>catch\<close> of the same function.
\<close>

definition fetchFromContract :: "props \<Rightarrow> bool \<Rightarrow> component \<Rightarrow> component" where
  "fetchFromContract p wallet c =
     (if contractAddress p = [] \<or> tokenId p = [] then c
      else if providerUrl p \<noteq> []
        then suspend (TokenURI (contractAddress p) (tokenId p) (JsonRpcProvider (providerUrl p))) c
      else if wallet
        then suspend (TokenURI (contractAddress p) (tokenId p) Web3Provider) c
      else setError (JStr no_provider_message) c)"

text \<open>
  \<^verbatim>\<open>
  async function fetchFromMetadataUrl() {
    try {
      if (!metadataUrl) return;
      const fixed = ipfsToHttp(metadataUrl);
      const res = await axios.get(fixed);
      if (cancelled) return;
      setMetadata(res.data);
    } catch (err) {
      console.error('metadata fetch err', err);
      setError(err.message);
    }
  }
  \<close>
  Here \<^verbatim>\<open>metadataUrl\<close> is a non-empty string, so \<^verbatim>\<open>ipfsToHttp\<close> is \<open>rewrite_ipfs\<close>.
\<close>

definition fetchFromMetadataUrl :: "props \<Rightarrow> component \<Rightarrow> component" where
  "fetchFromMetadataUrl p c =
     (if metadataUrl p = [] then c
      else suspend (HttpGet (rewrite_ipfs (metadataUrl p))) c)"

definition request_effect :: "props \<Rightarrow> bool \<Rightarrow> component \<Rightarrow> component" where
  "request_effect p wallet c =
     (let c0 = cleanup c;
          c1 = c0\<lparr>instances := instances c0 @ [\<lparr>cancelled = False, awaiting = None\<rparr>]\<rparr>;
          c2 = setError JNull (setAssetUrl (JStr []) (setMetadata JNull c1))
      in if metadataUrl p \<noteq> [] then fetchFromMetadataUrl p c2
         else if contractAddress p \<noteq> [] \<and> tokenId p \<noteq> [] then fetchFromContract p wallet c2
         else c2)"

subsection \<open>Continuations of a suspended run\<close>

definition awaits_call :: "nat \<Rightarrow> component \<Rightarrow> bool" where
  "awaits_call i c =
     (i < length (instances c) \<and>
      (case awaiting (instances c ! i) of Some (TokenURI a t pr) \<Rightarrow> True | _ \<Rightarrow> False))"

definition awaits_get :: "nat \<Rightarrow> component \<Rightarrow> bool" where
  "awaits_get i c =
     (i < length (instances c) \<and>
      (case awaiting (instances c ! i) of Some (HttpGet u) \<Rightarrow> True | _ \<Rightarrow> False))"

text \<open>
  The contract call of run \<open>i\<close> returns the string \<open>uri\<close>: the run goes on to
  \<^verbatim>\<open>axios.get(ipfsToHttp(uri))\<close> and suspends again, whether cancelled or not. (On a
  string, empty or not, \<^verbatim>\<open>ipfsToHttp\<close> is \<open>rewrite_ipfs\<close>.)
\<close>

definition tokenURI_returned :: "nat \<Rightarrow> jsstring \<Rightarrow> component \<Rightarrow> component" where
  "tokenURI_returned i uri c =
     (if awaits_call i c
      then update_instance i (\<lambda>e. e\<lparr>awaiting := Some (HttpGet (rewrite_ipfs uri))\<rparr>) c
      else c)"

text \<open>
  The request of run \<open>i\<close> resolves with the body \<open>data\<close>:
  \<^verbatim>\<open>if (cancelled) return; setMetadata(res.data);\<close>
\<close>

definition get_resolved :: "nat \<Rightarrow> jsval \<Rightarrow> component \<Rightarrow> component" where
  "get_resolved i data c =
     (if awaits_get i c
      then (let c1 = update_instance i (\<lambda>e. e\<lparr>awaiting := None\<rparr>) c
            in if cancelled (instances c ! i) then c1 else setMetadata data c1)
      else c)"

text \<open>
  The operation that run \<open>i\<close> is suspended on fails with an error whose message is
  \<open>msg\<close>; control goes to the \<^verbatim>\<open>catch\<close> block:
  \<^verbatim>\<open>console.error(..., err); setError(err.message);\<close>
\<close>

definition failed :: "nat \<Rightarrow> jsstring \<Rightarrow> component \<Rightarrow> component" where
  "failed i msg c =
     (if awaits_call i c \<or> awaits_get i c
      then setError (JStr msg) (update_instance i (\<lambda>e. e\<lparr>awaiting := None\<rparr>) c)
      else c)"

subsection \<open>The metadata effect\<close>

text \<open>
  \<^verbatim>\<open>
  useEffect(() => {
    if (!metadata) return;
    const candidates = [...];
    const first = candidates.find(Boolean);
    if (first) setAssetUrl(ipfsToHttp(first));
  }, [metadata]);
  \<close>
  The body reads \<^verbatim>\<open>metadata\<close> as it was in the render that the effect belongs to:
  \<open>metadata_effect_of m\<close> is the body for the rendered value \<open>m\<close>, and
  \<open>metadata_effect\<close> is the body when the rendered value is the one the cell holds.
  An exception of \<^verbatim>\<open>ipfsToHttp\<close> is not caught here: it leaves the effect.
\<close>

definition metadata_effect_of :: "jsval \<Rightarrow> component \<Rightarrow> js_error + component" where
  "metadata_effect_of m c =
     (if \<not> truthy m then Inr c
      else case first_asset m of
             None \<Rightarrow> Inr c
           | Some first \<Rightarrow>
               (case ipfsToHttp first of
                  Inl e \<Rightarrow> Inl e
                | Inr u \<Rightarrow> Inr (setAssetUrl u c)))"

definition metadata_effect :: "component \<Rightarrow> js_error + component" where
  "metadata_effect c = metadata_effect_of (metadata c) c"

definition flush_effects :: "component \<Rightarrow> js_error + component" where
  "flush_effects c =
     (if derive_due c then metadata_effect (c\<lparr>derive_due := False\<rparr>) else Inr c)"

subsection \<open>Events\<close>

text \<open>
  What happens to a mounted component: a render with a changed dependency of the request
  effect (with the new props, and whether \<^verbatim>\<open>window.ethereum\<close> is there), the
  settling of the operation a run is suspended on, or nothing but React running the
  effects that are due. In a \<open>step\<close> the event is rendered on its own: the effects
  that are due from the renders before are run first (\<open>flush_effects\<close>), then the
  event is handled. An event for a run that is not suspended on that operation cannot
  happen and changes nothing.
\<close>

datatype event =
    Props props bool
  | TokenURIReturned nat jsstring
  | GetResolved nat jsval
  | Failed nat jsstring
  | Idle

fun handle :: "event \<Rightarrow> component \<Rightarrow> component" where
  "handle (Props p wallet) c = request_effect p wallet c"
| "handle (TokenURIReturned i uri) c = tokenURI_returned i uri c"
| "handle (GetResolved i data) c = get_resolved i data c"
| "handle (Failed i msg) c = failed i msg c"
| "handle Idle c = c"

definition step :: "event \<Rightarrow> component \<Rightarrow> js_error + component" where
  "step ev c = (case flush_effects c of Inl e \<Rightarrow> Inl e | Inr c1 \<Rightarrow> Inr (handle ev c1))"

fun run :: "event list \<Rightarrow> component \<Rightarrow> js_error + component" where
  "run [] c = Inr c"
| "run (ev # evs) c = (case step ev c of Inl e \<Rightarrow> Inl e | Inr c1 \<Rightarrow> run evs c1)"

text \<open>
  Mounting runs both effects on the initial state: the request effect, and the metadata
  effect, which returns at once on \<^verbatim>\<open>null\<close>.
\<close>

definition mount :: "props \<Rightarrow> bool \<Rightarrow> component" where
  "mount p wallet = request_effect p wallet initial"

subsection \<open>Renders that take several updates together\<close>

text \<open>
  React does not render after every state update: the updates made before a render are
  applied together in that render, and the props may change in the same render. After
  the render React runs the effects whose dependencies changed, in the order of the
  hooks: the cleanup of the previous run of the request effect and its body with the new
  props (when they changed), then the body of the metadata effect (when \<^verbatim>\<open>metadata\<close>
  changed), which reads the value that \<^verbatim>\<open>metadata\<close> had in that render, not the
  \<^verbatim>\<open>null\<close> that the request effect has just queued.
\<close>

definition commit :: "(props \<times> bool) option \<Rightarrow> component \<Rightarrow> js_error + component" where
  "commit change c =
     (let m = metadata c;
          c0 = c\<lparr>derive_due := False\<rparr>;
          c1 = (case change of None \<Rightarrow> c0 | Some (p, wallet) \<Rightarrow> request_effect p wallet c0)
      in if derive_due c then metadata_effect_of m c1 else Inr c1)"

text \<open>The events that settle a suspended run: they only queue state updates.\<close>

fun settles :: "event \<Rightarrow> bool" where
  "settles (TokenURIReturned i uri) = True"
| "settles (GetResolved i data) = True"
| "settles (Failed i msg) = True"
| "settles (Props p wallet) = False"
| "settles Idle = False"

text \<open>
  The states of a mounted component: a run may settle at any time, and a render, with or
  without a change of the props, may come at any time and takes all updates made so far.
\<close>

inductive reachable :: "component \<Rightarrow> bool" where
  reachable_mount: "reachable (mount p wallet)"
| reachable_settle: "reachable c \<Longrightarrow> settles ev \<Longrightarrow> reachable (handle ev c)"
| reachable_commit: "reachable c \<Longrightarrow> commit change c = Inr c' \<Longrightarrow> reachable c'"

text \<open>The states that are reached when every event is rendered on its own.\<close>

inductive serial :: "component \<Rightarrow> bool" where
  serial_mount: "serial (mount p wallet)"
| serial_step: "serial c \<Longrightarrow> step ev c = Inr c' \<Longrightarrow> serial c'"

subsection \<open>Quick actions\<close>

text \<open>
  The click handlers of the two buttons of the metadata panel, as the list of browser
  calls they make:
  \<^verbatim>\<open>
  onClick={() => { navigator.clipboard?.writeText(assetUrl || ''); }}
  onClick={() => window.open(assetUrl, '_blank')}
  \<close>
  \<open>clipboard\<close> says whether \<^verbatim>\<open>navigator.clipboard\<close> is there.
\<close>

datatype browser_call = ClipboardWriteText jsval | WindowOpen jsval jsstring

definition copy_click :: "bool \<Rightarrow> jsval \<Rightarrow> browser_call list" where
  "copy_click clipboard a =
     (if clipboard then [ClipboardWriteText (if truthy a then a else JStr [])] else [])"

definition open_click :: "jsval \<Rightarrow> browser_call list" where
  "open_click a = [WindowOpen a (js ''_blank'')]"

section \<open>Notions for stating the properties\<close>

text \<open>
  The six file extensions that the patterns anchor at the end of the URL, and the test
  whether a URL ends in one of them (in upper or lower case).
\<close>

definition recognized_extensions :: "jsstring list" where
  "recognized_extensions =
     [js ''.gltf'', js ''.glb'', js ''.png'', js ''.jpg'', js ''.jpeg'', js ''.webp'']"

definition ends_with_extension :: "jsstring \<Rightarrow> bool" where
  "ends_with_extension u = list_ex (\<lambda>e. lit_at_end e u) recognized_extensions"

text \<open>
  The first asset field that is present: the value of the first field, in the order of
  \<open>asset_fields\<close>, that the document has, whatever that value is.
\<close>

definition first_present :: "jsval \<Rightarrow> jsval option" where
  "first_present m = find (\<lambda>v. v \<noteq> JUndefined) (candidates m)"

text \<open>
  The operation that the run started by the request effect is suspended on, if any.
\<close>

definition started :: "props \<Rightarrow> bool \<Rightarrow> component \<Rightarrow> outbound option" where
  "started p w c = awaiting (instances (request_effect p w c) ! latest (request_effect p w c))"

text \<open>
  The asset URL that belongs to a metadata value: empty when the value is falsy or has
  no truthy asset field, else the normalized first truthy asset field.
\<close>

definition derived_url :: "jsval \<Rightarrow> js_error + jsval" where
  "derived_url m =
     (if \<not> truthy m then Inr (JStr [])
      else case first_asset m of
             None \<Rightarrow> Inr (JStr [])
           | Some first \<Rightarrow> ipfsToHttp first)"

text \<open>
  What holds of the runs of every reachable component: the latest run is the only one
  that is not cancelled, and while it is suspended no document is stored.
\<close>

definition runs_ok :: "component \<Rightarrow> bool" where
  "runs_ok c =
     (instances c \<noteq> []
      \<and> (\<forall>i < length (instances c). cancelled (instances c ! i) = (i \<noteq> latest c))
      \<and> (awaiting (instances c ! latest c) \<noteq> None \<longrightarrow> metadata c = JNull))"

text \<open>
  What holds of every reachable component besides: when the metadata effect is not due
  and the document has a truthy asset field, the asset URL is the one derived from it.
\<close>

definition coherent :: "component \<Rightarrow> bool" where
  "coherent c =
     (runs_ok c
      \<and> (\<not> derive_due c \<and> truthy (metadata c) \<and> first_asset (metadata c) \<noteq> None \<longrightarrow>
           derived_url (metadata c) = Inr (assetUrl c)))"

text \<open>
  What holds when every event is rendered on its own: the asset URL is empty while the
  metadata effect is due, and is the derived one otherwise.
\<close>

definition consistent :: "component \<Rightarrow> bool" where
  "consistent c =
     (runs_ok c
      \<and> (derive_due c \<longrightarrow> assetUrl c = JStr [])
      \<and> (\<not> derive_due c \<longrightarrow> derived_url (metadata c) = Inr (assetUrl c)))"

section \<open>Example inputs\<close>

text \<open>
  Two requests by direct metadata URL, a request by contract and token id without a
  provider URL, and three metadata documents.
\<close>

definition props_one :: props where
  "props_one = \<lparr>metadataUrl = js ''ipfs://m/1.json'', contractAddress = [], tokenId = [],
     providerUrl = []\<rparr>"

definition props_two :: props where
  "props_two = \<lparr>metadataUrl = js ''https://h/2.json'', contractAddress = [], tokenId = [],
     providerUrl = []\<rparr>"

definition props_contract :: props where
  "props_contract = \<lparr>metadataUrl = [], contractAddress = js ''0xabc'', tokenId = js ''7'',
     providerUrl = []\<rparr>"

definition doc_image :: jsval where
  "doc_image =
     JObj [(js ''name'', JStr (js ''Foo'')), (js ''image'', JStr (js ''ipfs://Qm2/img.png''))]"

definition doc_both :: jsval where
  "doc_both =
     JObj [(js ''image'', JStr (js ''a.png'')), (js ''animation_url'', JStr (js ''b.glb''))]"

definition doc_empty_first :: jsval where
  "doc_empty_first =
     JObj [(js ''animation_url'', JStr []), (js ''image'', JStr (js ''a.png''))]"

section \<open>Properties of URL normalization\<close>

lemma replace_prefix: "pat \<noteq> [] \<Longrightarrow> replace (pat @ rest) pat rep = rep @ rest"
  by (cases pat) simp_all

lemma rewrite_ipfs_scheme:
  "rewrite_ipfs (js ''ipfs://'' @ rest) = js ''https://ipfs.io/ipfs/'' @ rest"
proof -
  have ne: "js ''ipfs://'' \<noteq> []"
    by (simp add: js_def)
  show ?thesis
    unfolding rewrite_ipfs_def startsWith_def
    by (simp add: replace_prefix [OF ne])
qed

lemma rewrite_ipfs_other:
  "\<not> prefix (js ''ipfs://'') u \<Longrightarrow> rewrite_ipfs u = u"
  by (simp add: rewrite_ipfs_def startsWith_def)

lemma gateway_not_ipfs_scheme:
  "\<not> prefix (js ''ipfs://'') (js ''https://ipfs.io/ipfs/'' @ rest)"
  by (simp add: js_def)

lemma rewrite_ipfs_idem: "rewrite_ipfs (rewrite_ipfs u) = rewrite_ipfs u"
proof (cases "prefix (js ''ipfs://'') u")
  case True
  then obtain rest where u: "u = js ''ipfs://'' @ rest"
    by (auto simp: prefix_def)
  show ?thesis
    unfolding u rewrite_ipfs_scheme
    by (rule rewrite_ipfs_other) (rule gateway_not_ipfs_scheme)
next
  case False
  then show ?thesis
    by (simp add: rewrite_ipfs_other)
qed

text \<open>
  Claim C4. Normalization maps every string \<open>''ipfs://'' + rest\<close> to
  \<open>''https://ipfs.io/ipfs/'' + rest\<close>, and returns every other string unchanged:
  the empty string, the absent values \<open>undefined\<close> and \<open>null\<close>, and every string that
  does not start with \<open>''ipfs://''\<close> (so also a string that holds \<open>''ipfs/''\<close> under an
  HTTP scheme).
\<close>

theorem ipfsToHttp_maps_scheme_only:
  "ipfsToHttp (JStr (js ''ipfs://'' @ rest)) = Inr (JStr (js ''https://ipfs.io/ipfs/'' @ rest))
   \<and> (\<not> startsWith u (js ''ipfs://'') \<longrightarrow> ipfsToHttp (JStr u) = Inr (JStr u))
   \<and> ipfsToHttp (JStr []) = Inr (JStr [])
   \<and> ipfsToHttp JUndefined = Inr JUndefined
   \<and> ipfsToHttp JNull = Inr JNull"
proof -
  have "truthy (JStr (js ''ipfs://'' @ rest))"
    by (simp add: js_def)
  then have scheme: "ipfsToHttp (JStr (js ''ipfs://'' @ rest))
      = Inr (JStr (js ''https://ipfs.io/ipfs/'' @ rest))"
    by (simp add: ipfsToHttp_def rewrite_ipfs_scheme)
  have other: "ipfsToHttp (JStr u) = Inr (JStr u)" if "\<not> startsWith u (js ''ipfs://'')"
    using that by (simp add: ipfsToHttp_def startsWith_def rewrite_ipfs_other)
  have absent: "ipfsToHttp (JStr []) = Inr (JStr [])" "ipfsToHttp JUndefined = Inr JUndefined"
      "ipfsToHttp JNull = Inr JNull"
    by (simp_all add: ipfsToHttp_def)
  from scheme other absent show ?thesis
    by blast
qed

theorem ipfsToHttp_maps_scheme_only_witness:
  "ipfsToHttp (JStr (js ''ipfs://abc'')) = Inr (JStr (js ''https://ipfs.io/ipfs/abc''))
   \<and> \<not> startsWith (js ''https://x/ipfs/abc'') (js ''ipfs://'')
   \<and> ipfsToHttp (JStr (js ''https://x/ipfs/abc'')) = Inr (JStr (js ''https://x/ipfs/abc''))"
proof -
  have ns: "\<not> startsWith (js ''https://x/ipfs/abc'') (js ''ipfs://'')"
    by (simp add: startsWith_def js_def)
  from ipfsToHttp_maps_scheme_only [of "js ''abc''" "js ''https://x/ipfs/abc''"] ns
  show ?thesis
    by (simp add: js_def)
qed

text \<open>
  Claim C5. Normalization is idempotent: normalizing the result of a normalization
  gives that result again, for every string.
\<close>

theorem ipfsToHttp_idempotent:
  "\<exists>v. ipfsToHttp (JStr u) = Inr v \<and> ipfsToHttp v = Inr v"
proof (cases "u = []")
  case True
  then show ?thesis
    by (simp add: ipfsToHttp_def)
next
  case False
  show ?thesis
  proof (cases "rewrite_ipfs u = []")
    case True
    with False show ?thesis
      by (simp add: ipfsToHttp_def)
  next
    case nonempty: False
    with False show ?thesis
      by (simp add: ipfsToHttp_def rewrite_ipfs_idem)
  qed
qed

section \<open>Properties of classification\<close>

lemma known_pattern_iff:
  "known_pattern u \<longleftrightarrow> ends_with_extension u \<or> lit_anywhere (js ''image/'') u"
  by (auto simp: known_pattern_def ends_with_extension_def recognized_extensions_def)

lemma image_pattern_known: "image_pattern u \<Longrightarrow> known_pattern u"
  by (auto simp: image_pattern_def known_pattern_def)

lemma known_pattern_cases: "known_pattern u \<Longrightarrow> model_pattern u \<or> image_pattern u"
  by (auto simp: image_pattern_def known_pattern_def model_pattern_def)

lemma model_pattern_known: "model_pattern u \<Longrightarrow> \<not> model_hint u \<Longrightarrow> known_pattern u"
  by (auto simp: known_pattern_def model_pattern_def)

lemma set_select_paths:
  "set (select_paths u) =
     {p. u \<noteq> [] \<and> (p = Model3D \<and> model_pattern u \<or> p = FlatImage \<and> image_pattern u
         \<or> p = GenericEmbed \<and> \<not> known_pattern u)}"
  by (auto simp: select_paths_def)

text \<open>
  Claim C2 says that exactly one of the three render paths is selected for every
  non-empty URL. The three conditions are tested one by one, not as a chain: a URL that
  holds \<open>''image/''\<close> and ends in \<open>''.glb''\<close> matches the first and the second pattern,
  and both the 3D model and the flat image are rendered.
\<close>

theorem render_dispatch_two_paths:
  "select_paths (js ''https://h/image/a.glb'') = [Model3D, FlatImage]
   \<and> render_asset (JStr (js ''https://h/image/a.glb'')) = Inr [Model3D, FlatImage]"
  by code_simp

text \<open>
  The third pattern repeats the alternatives of the first two, except the hint
  \<^verbatim>\<open>model\/(.*)gltf\<close>: a URL that matches the first pattern by the hint alone is
  rendered as a 3D model and in the embedded frame as well.
\<close>

lemma render_dispatch_hint_and_embed:
  "select_paths (js ''https://h/model/gltf'') = [Model3D, GenericEmbed]"
  by code_simp

text \<open>
  Claim C2, as amended. For every non-empty URL at least one render path is selected.
  The flat image and the embedded frame are never selected together; for a URL without
  the hint \<^verbatim>\<open>model\/(.*)gltf\<close> the embedded frame is selected exactly when neither the
  3D model nor the flat image is; and a URL that matches both the model pattern and the
  image pattern selects both the 3D model and the flat image.
\<close>

theorem render_dispatch_total_not_exclusive:
  assumes "u \<noteq> []"
  shows "select_paths u \<noteq> []
    \<and> \<not> (FlatImage \<in> set (select_paths u) \<and> GenericEmbed \<in> set (select_paths u))
    \<and> (\<not> model_hint u \<longrightarrow>
         (GenericEmbed \<in> set (select_paths u))
           = (Model3D \<notin> set (select_paths u) \<and> FlatImage \<notin> set (select_paths u)))
    \<and> (model_pattern u \<and> image_pattern u \<longrightarrow> select_paths u = [Model3D, FlatImage])"
proof -
  have total: "select_paths u \<noteq> []"
    using assms known_pattern_cases [of u] by (auto simp: select_paths_def)
  have excl: "\<not> (FlatImage \<in> set (select_paths u) \<and> GenericEmbed \<in> set (select_paths u))"
    using image_pattern_known [of u] by (auto simp: set_select_paths)
  have fallback: "(GenericEmbed \<in> set (select_paths u))
      = (Model3D \<notin> set (select_paths u) \<and> FlatImage \<notin> set (select_paths u))"
    if "\<not> model_hint u"
    using assms that known_pattern_cases [of u] image_pattern_known [of u]
      model_pattern_known [of u]
    by (auto simp: set_select_paths)
  have both: "select_paths u = [Model3D, FlatImage]" if "model_pattern u \<and> image_pattern u"
    using assms that image_pattern_known [of u] by (simp add: select_paths_def)
  from total excl fallback both show ?thesis
    by blast
qed

text \<open>The amended claim at the URL \<open>''//h/image/a.png''\<close>: only the flat image is selected.\<close>

theorem render_dispatch_total_not_exclusive_witness:
  "js ''//h/image/a.png'' \<noteq> []
   \<and> \<not> model_hint (js ''//h/image/a.png'')
   \<and> select_paths (js ''//h/image/a.png'') = [FlatImage]
   \<and> GenericEmbed \<notin> set (select_paths (js ''//h/image/a.png''))"
proof -
  let ?u = "js ''//h/image/a.png''"
  have ne: "?u \<noteq> []" by code_simp
  have nh: "\<not> model_hint ?u" by code_simp
  have sel: "select_paths ?u = [FlatImage]" by code_simp
  have fi: "FlatImage \<in> set (select_paths ?u)" by code_simp
  from render_dispatch_total_not_exclusive [OF ne] fi
  have ge: "GenericEmbed \<notin> set (select_paths ?u)" by blast
  show ?thesis
    by (intro conjI ne nh sel ge)
qed

text \<open>
  Claim C10 says that a URL in which a recognized extension is followed by further
  characters, and which holds neither hint, goes to the embedded frame. In the URL
  below the extension \<open>''.png''\<close> is followed by a query string and neither hint
  occurs, but the string ends in \<open>''.glb''\<close>, so the 3D model is selected and the
  embedded frame is not.
\<close>

theorem extension_before_query_selects_model:
  "js ''https://h/a.png?v=b.glb'' = js ''https://h/a'' @ js ''.png'' @ js ''?v=b.glb''
   \<and> js ''.png'' \<in> set recognized_extensions
   \<and> js ''?v=b.glb'' \<noteq> []
   \<and> \<not> lit_anywhere (js ''image/'') (js ''https://h/a.png?v=b.glb'')
   \<and> \<not> model_hint (js ''https://h/a.png?v=b.glb'')
   \<and> select_paths (js ''https://h/a.png?v=b.glb'') = [Model3D]"
  by code_simp

text \<open>
  Claim C10, as amended. Extension matching is anchored at the end of the URL: every
  non-empty URL that does not end in a recognized extension (so every URL whose only
  extension is followed by further characters, such as \<open>''https://h/a.png?x=1''\<close>)
  and that holds neither \<open>''image/''\<close> nor the hint \<^verbatim>\<open>model\/(.*)gltf\<close> selects the
  embedded frame, and neither the 3D model nor the flat image.
\<close>

theorem embed_when_no_extension_at_end:
  assumes "u \<noteq> []" and "\<not> ends_with_extension u"
    and "\<not> lit_anywhere (js ''image/'') u" and "\<not> model_hint u"
  shows "select_paths u = [GenericEmbed]"
proof -
  from assms(2,3) have nk: "\<not> known_pattern u"
    by (simp add: known_pattern_iff)
  then have ni: "\<not> image_pattern u"
    using image_pattern_known by blast
  from nk assms(4) have nm: "\<not> model_pattern u"
    using model_pattern_known by blast
  from assms(1) nk ni nm show ?thesis
    by (simp add: select_paths_def)
qed

text \<open>The amended claim at the URL \<open>''https://h/a.png?x=1''\<close>.\<close>

theorem embed_when_no_extension_at_end_witness:
  "js ''https://h/a.png?x=1'' \<noteq> [] \<and> \<not> ends_with_extension (js ''https://h/a.png?x=1'')
   \<and> \<not> lit_anywhere (js ''image/'') (js ''https://h/a.png?x=1'')
   \<and> \<not> model_hint (js ''https://h/a.png?x=1'')
   \<and> select_paths (js ''https://h/a.png?x=1'') = [GenericEmbed]"
proof -
  let ?u = "js ''https://h/a.png?x=1''"
  have h1: "?u \<noteq> []" by code_simp
  have h2: "\<not> ends_with_extension ?u" by code_simp
  have h3: "\<not> lit_anywhere (js ''image/'') ?u" by code_simp
  have h4: "\<not> model_hint ?u" by code_simp
  note sel = embed_when_no_extension_at_end [OF h1 h2 h3 h4]
  show ?thesis
    by (intro conjI h1 h2 h3 h4 sel)
qed

section \<open>Properties of the asset field\<close>

text \<open>
  Claim C3 says that the asset field is the first one present in the document, in the
  order \<open>animation_url\<close>, \<open>image\<close>, \<open>image_url\<close>, \<open>asset\<close>, \<open>animation\<close>. The
  component takes the first field whose value is truthy: in the document
  \<^verbatim>\<open>{animation_url: "", image: "a.png"}\<close> the field \<open>animation_url\<close> is present,
  and it is passed over for \<open>image\<close>.
\<close>

theorem first_present_field_is_skipped:
  "first_present doc_empty_first = Some (JStr [])
   \<and> first_asset doc_empty_first = Some (JStr (js ''a.png''))"
  by code_simp

text \<open>
  Claim C3, as amended. For every metadata document the asset field is the first one,
  in the order \<open>animation_url\<close>, \<open>image\<close>, \<open>image_url\<close>, \<open>asset\<close>, \<open>animation\<close>,
  whose value is truthy (present, and not \<open>null\<close>, \<open>false\<close>, \<open>0\<close> or the empty
  string), and there is none exactly when no field has a truthy value. For the document
  \<^verbatim>\<open>{image: "a.png", animation_url: "b.glb"}\<close> the field chosen is \<open>''b.glb''\<close>,
  which normalization leaves unchanged and which is rendered as a 3D model only.
\<close>

theorem first_asset_is_first_truthy:
  "(first_asset m = Some v \<longleftrightarrow>
      (\<exists>i < length asset_fields. v = get_prop m (asset_fields ! i) \<and> truthy v
         \<and> (\<forall>j < i. \<not> truthy (get_prop m (asset_fields ! j)))))
   \<and> (first_asset m = None \<longleftrightarrow> (\<forall>k \<in> set asset_fields. \<not> truthy (get_prop m k)))
   \<and> first_asset doc_both = Some (JStr (js ''b.glb''))
   \<and> ipfsToHttp (JStr (js ''b.glb'')) = Inr (JStr (js ''b.glb''))
   \<and> render_asset (JStr (js ''b.glb'')) = Inr [Model3D]"
proof -
  have some: "first_asset m = Some v \<longleftrightarrow>
      (\<exists>i < length asset_fields. v = get_prop m (asset_fields ! i) \<and> truthy v
         \<and> (\<forall>j < i. \<not> truthy (get_prop m (asset_fields ! j))))"
    unfolding first_asset_def candidates_def find_Some_iff
    by (auto simp: nth_map)
  have none: "first_asset m = None \<longleftrightarrow> (\<forall>k \<in> set asset_fields. \<not> truthy (get_prop m k))"
    unfolding first_asset_def candidates_def find_None_iff
    by auto
  have ex1: "first_asset doc_both = Some (JStr (js ''b.glb''))"
    by code_simp
  have ex2: "ipfsToHttp (JStr (js ''b.glb'')) = Inr (JStr (js ''b.glb''))"
    by code_simp
  have ex3: "render_asset (JStr (js ''b.glb'')) = Inr [Model3D]"
    by code_simp
  show ?thesis
    by (intro conjI some none ex1 ex2 ex3)
qed

text \<open>The amended claim at the document \<^verbatim>\<open>{animation_url: "", image: "a.png"}\<close>.\<close>

theorem first_asset_is_first_truthy_witness:
  "first_asset doc_empty_first = Some (JStr (js ''a.png''))
   \<and> (\<exists>i < length asset_fields.
         JStr (js ''a.png'') = get_prop doc_empty_first (asset_fields ! i)
         \<and> truthy (JStr (js ''a.png'')))"
proof -
  have ev: "first_asset doc_empty_first = Some (JStr (js ''a.png''))"
    by code_simp
  with first_asset_is_first_truthy [of doc_empty_first "JStr (js ''a.png'')"]
  show ?thesis
    by blast
qed

section \<open>What holds of every reachable component\<close>

lemma derived_url_null [simp]: "derived_url JNull = Inr (JStr [])"
  by (simp add: derived_url_def)

lemma same_value_null: "same_value JNull v = (v = JNull)"
  by (cases v) (auto simp: same_value_def)

lemmas request_defs = request_effect_def fetchFromMetadataUrl_def fetchFromContract_def
  cleanup_def suspend_def update_instance_def latest_def setMetadata_def setAssetUrl_def
  setError_def Let_def

subsection \<open>The runs\<close>

lemma runs_ok_request_effect:
  assumes "instances c = [] \<or> runs_ok c"
  shows "runs_ok (request_effect p w c)"
  using assms
  by (auto simp: runs_ok_def request_defs nth_append nth_list_update)

lemma metadata_request_effect [simp]: "metadata (request_effect p w c) = JNull"
  by (simp add: request_defs)

lemma runs_ok_mount: "runs_ok (mount p w)"
  by (simp add: mount_def runs_ok_request_effect initial_def)

lemma runs_ok_cells [simp]:
  "runs_ok (c\<lparr>derive_due := b\<rparr>) = runs_ok c"
  "runs_ok (setAssetUrl u c) = runs_ok c"
  "runs_ok (setError v c) = runs_ok c"
  by (simp_all add: runs_ok_def setAssetUrl_def setError_def latest_def)

lemma runs_ok_update_awaiting:
  assumes "runs_ok c" and "i < length (instances c)"
    and "i = latest c \<Longrightarrow> op \<noteq> None \<Longrightarrow> metadata c = JNull"
  shows "runs_ok (update_instance i (\<lambda>e. e\<lparr>awaiting := op\<rparr>) c)"
  using assms
  by (auto simp: runs_ok_def update_instance_def latest_def nth_list_update)

lemma awaits_latest_null:
  "runs_ok c \<Longrightarrow> awaits_call i c \<or> awaits_get i c \<Longrightarrow> i = latest c
    \<Longrightarrow> metadata c = JNull"
  by (auto simp: runs_ok_def awaits_call_def awaits_get_def split: option.splits)

lemma runs_ok_tokenURI_returned: "runs_ok c \<Longrightarrow> runs_ok (tokenURI_returned i uri c)"
  unfolding tokenURI_returned_def
  using awaits_latest_null [of c i]
  by (auto intro!: runs_ok_update_awaiting simp: awaits_call_def)

lemma runs_ok_failed: "runs_ok c \<Longrightarrow> runs_ok (failed i msg c)"
  unfolding failed_def
  by (auto intro!: runs_ok_update_awaiting simp: awaits_call_def awaits_get_def)

lemma runs_ok_setMetadata:
  assumes "runs_ok c" and "awaiting (instances c ! latest c) = None"
  shows "runs_ok (setMetadata d c)"
  using assms by (simp add: runs_ok_def setMetadata_def latest_def)

text \<open>
  When a request resolves, either its run is superseded and only the run changes, or it
  is the latest run: then no document was stored, and the new one is.
\<close>

lemma get_resolved_cases:
  assumes "runs_ok c"
  shows "get_resolved i d c = c
    \<or> get_resolved i d c = update_instance i (\<lambda>e. e\<lparr>awaiting := None\<rparr>) c
       \<and> i < length (instances c)
    \<or> get_resolved i d c = setMetadata d (update_instance i (\<lambda>e. e\<lparr>awaiting := None\<rparr>) c)
       \<and> i = latest c \<and> i < length (instances c) \<and> metadata c = JNull"
proof (cases "awaits_get i c")
  case False
  then show ?thesis
    by (simp add: get_resolved_def)
next
  case True
  then have i: "i < length (instances c)"
    by (simp add: awaits_get_def)
  show ?thesis
  proof (cases "cancelled (instances c ! i)")
    case True
    with \<open>awaits_get i c\<close> i show ?thesis
      by (simp add: get_resolved_def)
  next
    case False
    with assms i have l: "i = latest c"
      by (auto simp: runs_ok_def)
    with True assms have "metadata c = JNull"
      using awaits_latest_null by blast
    with True False l i show ?thesis
      by (simp add: get_resolved_def)
  qed
qed

lemma runs_ok_get_resolved:
  assumes "runs_ok c"
  shows "runs_ok (get_resolved i d c)"
proof -
  let ?c1 = "update_instance i (\<lambda>e. e\<lparr>awaiting := None\<rparr>) c"
  have c1: "runs_ok ?c1" if "i < length (instances c)"
    using assms that by (rule runs_ok_update_awaiting) simp
  have c2: "runs_ok (setMetadata d ?c1)" if "i < length (instances c)" and "i = latest c"
  proof (rule runs_ok_setMetadata [OF c1 [OF that(1)]])
    show "awaiting (instances ?c1 ! latest ?c1) = None"
      using that by (simp add: update_instance_def latest_def)
  qed
  from get_resolved_cases [OF assms, of i d] assms c1 c2 show ?thesis
    by auto
qed

lemma runs_ok_handle: "runs_ok c \<Longrightarrow> runs_ok (handle ev c)"
  by (cases ev)
    (simp_all add: runs_ok_request_effect runs_ok_tokenURI_returned runs_ok_failed
      runs_ok_get_resolved)

lemma metadata_effect_of_cells:
  assumes "metadata_effect_of m c = Inr c'"
  shows "metadata c' = metadata c \<and> error c' = error c \<and> instances c' = instances c
    \<and> derive_due c' = derive_due c \<and> runs_ok c' = runs_ok c"
  using assms
  by (auto simp: metadata_effect_of_def setAssetUrl_def runs_ok_def latest_def
      split: if_splits option.splits sum.splits)

subsection \<open>Renders of one event and renders of several\<close>

lemma derive_due_False_id: "\<not> derive_due c \<Longrightarrow> c\<lparr>derive_due := False\<rparr> = c"
  by (cases c) simp

lemma flush_effects_commit: "flush_effects c = commit None c"
  by (simp add: flush_effects_def commit_def metadata_effect_def derive_due_False_id)

lemma flush_effects_not_due: "flush_effects c = Inr c' \<Longrightarrow> \<not> derive_due c'"
  by (auto simp: flush_effects_def metadata_effect_def dest: metadata_effect_of_cells
      split: if_splits)

lemma commit_props_not_due:
  "\<not> derive_due c \<Longrightarrow> commit (Some (p, w)) c = Inr (request_effect p w c)"
  by (simp add: commit_def derive_due_False_id)

lemma reachable_step:
  assumes "reachable c" and "step ev c = Inr c'"
  shows "reachable c'"
proof -
  from assms(2) obtain c1 where f: "flush_effects c = Inr c1" and c': "c' = handle ev c1"
    by (auto simp: step_def split: sum.splits)
  from f have "commit None c = Inr c1"
    by (simp add: flush_effects_commit)
  with assms(1) have r1: "reachable c1"
    by (rule reachable_commit)
  from f have nd: "\<not> derive_due c1"
    by (rule flush_effects_not_due)
  show ?thesis
  proof (cases ev)
    case (Props p w)
    with c' nd have "commit (Some (p, w)) c1 = Inr c'"
      by (simp add: commit_props_not_due)
    with r1 show ?thesis
      by (rule reachable_commit)
  next
    case Idle
    with c' r1 show ?thesis
      by simp
  next
    case (TokenURIReturned i uri)
    with c' reachable_settle [OF r1, of ev] show ?thesis
      by simp
  next
    case (GetResolved i d)
    with c' reachable_settle [OF r1, of ev] show ?thesis
      by simp
  next
    case (Failed i msg)
    with c' reachable_settle [OF r1, of ev] show ?thesis
      by simp
  qed
qed

lemma serial_reachable: "serial c \<Longrightarrow> reachable c"
  by (induction rule: serial.induct) (auto intro: reachable_mount reachable_step)

lemma run_from_serial: "serial c \<Longrightarrow> run evs c = Inr c' \<Longrightarrow> serial c'"
proof (induction evs arbitrary: c)
  case Nil
  then show ?case by simp
next
  case (Cons ev evs)
  then show ?case
    by (auto split: sum.splits intro: serial_step)
qed

lemma run_serial_projr:
  "\<not> isl (run evs (mount p w)) \<Longrightarrow> serial (projr (run evs (mount p w)))"
  by (cases "run evs (mount p w)") (auto intro: run_from_serial serial_mount)

lemma run_reachable_projr:
  "\<not> isl (run evs (mount p w)) \<Longrightarrow> reachable (projr (run evs (mount p w)))"
  by (rule serial_reachable) (rule run_serial_projr)

subsection \<open>Every reachable component\<close>

lemma coherent_mount: "coherent (mount p w)"
  by (simp add: coherent_def runs_ok_mount) (simp add: mount_def)

lemma coherent_settle:
  assumes "coherent c" and "settles ev"
  shows "coherent (handle ev c)"
proof (cases ev)
  case (TokenURIReturned i uri)
  with assms(1) runs_ok_tokenURI_returned [of c i uri] show ?thesis
    by (auto simp: coherent_def tokenURI_returned_def update_instance_def)
next
  case (Failed i msg)
  with assms(1) runs_ok_failed [of c i msg] show ?thesis
    by (auto simp: coherent_def failed_def update_instance_def setError_def)
next
  case (GetResolved i d)
  from assms(1) have ok: "runs_ok c"
    by (simp add: coherent_def)
  from get_resolved_cases [OF ok, of i d] assms(1) runs_ok_get_resolved [OF ok, of i d]
  have "coherent (get_resolved i d c)"
    by (auto simp: coherent_def update_instance_def setMetadata_def same_value_null)
  with GetResolved show ?thesis
    by simp
next
  case (Props p w)
  with assms(2) show ?thesis
    by simp
next
  case Idle
  with assms(2) show ?thesis
    by simp
qed

lemma coherent_commit:
  assumes "coherent c" and "commit change c = Inr c'"
  shows "coherent c'"
proof (cases change)
  case None
  show ?thesis
  proof (cases "derive_due c")
    case False
    with None assms show ?thesis
      by (simp add: commit_def derive_due_False_id)
  next
    case True
    with None assms(2)
    have e: "metadata_effect_of (metadata c) (c\<lparr>derive_due := False\<rparr>) = Inr c'"
      by (simp add: commit_def)
    from assms(1) metadata_effect_of_cells [OF e] have ok: "runs_ok c'"
      by (simp add: coherent_def)
    from e metadata_effect_of_cells [OF e]
    have "truthy (metadata c') \<and> first_asset (metadata c') \<noteq> None \<longrightarrow>
        derived_url (metadata c') = Inr (assetUrl c')"
      by (auto simp: metadata_effect_of_def derived_url_def setAssetUrl_def
          split: if_splits option.splits sum.splits)
    with ok show ?thesis
      by (simp add: coherent_def)
  qed
next
  case (Some pw)
  obtain p w where pw: "pw = (p, w)"
    by (cases pw)
  let ?c1 = "request_effect p w (c\<lparr>derive_due := False\<rparr>)"
  from assms(1) have ok1: "runs_ok ?c1"
    by (simp add: coherent_def runs_ok_request_effect)
  have "runs_ok c' \<and> metadata c' = JNull"
  proof (cases "derive_due c")
    case False
    with Some pw assms(2) ok1 show ?thesis
      by (auto simp: commit_def)
  next
    case True
    with Some pw assms(2) have "metadata_effect_of (metadata c) ?c1 = Inr c'"
      by (simp add: commit_def)
    from metadata_effect_of_cells [OF this] ok1 show ?thesis
      by simp
  qed
  then show ?thesis
    by (simp add: coherent_def)
qed

lemma reachable_coherent: "reachable c \<Longrightarrow> coherent c"
  by (induction rule: reachable.induct)
    (auto intro: coherent_mount coherent_settle coherent_commit)

subsection \<open>Every event rendered on its own\<close>

lemma consistent_request_effect:
  assumes "instances c = [] \<or> consistent c"
  shows "consistent (request_effect p w c)"
proof -
  from assms have "runs_ok (request_effect p w c)"
    by (auto simp: consistent_def intro: runs_ok_request_effect)
  moreover have "assetUrl (request_effect p w c) = JStr []"
    by (simp add: request_defs)
  ultimately show ?thesis
    by (simp add: consistent_def)
qed

lemma consistent_mount: "consistent (mount p w)"
  by (simp add: mount_def consistent_request_effect initial_def)

lemma flush_effects_consistent:
  assumes "consistent c" and "flush_effects c = Inr c'"
  shows "consistent c' \<and> \<not> derive_due c' \<and> metadata c' = metadata c"
proof (cases "derive_due c")
  case False
  with assms show ?thesis
    by (simp add: flush_effects_def)
next
  case True
  with assms(2)
  have e: "metadata_effect_of (metadata c) (c\<lparr>derive_due := False\<rparr>) = Inr c'"
    by (simp add: flush_effects_def metadata_effect_def)
  from assms(1) metadata_effect_of_cells [OF e]
  have ok: "runs_ok c'" and nd: "\<not> derive_due c'" and m: "metadata c' = metadata c"
    by (simp_all add: consistent_def)
  from assms(1) True have "assetUrl c = JStr []"
    by (simp add: consistent_def)
  with e m have "derived_url (metadata c') = Inr (assetUrl c')"
    by (auto simp: metadata_effect_of_def derived_url_def setAssetUrl_def
        split: if_splits option.splits sum.splits)
  with ok nd m show ?thesis
    by (simp add: consistent_def)
qed

lemma consistent_handle:
  assumes "consistent c" and "\<not> derive_due c"
  shows "consistent (handle ev c)"
proof (cases ev)
  case (Props p w)
  with assms(1) show ?thesis
    by (simp add: consistent_request_effect)
next
  case Idle
  with assms(1) show ?thesis
    by simp
next
  case (TokenURIReturned i uri)
  with assms(1) runs_ok_tokenURI_returned [of c i uri] show ?thesis
    by (auto simp: consistent_def tokenURI_returned_def update_instance_def)
next
  case (Failed i msg)
  with assms(1) runs_ok_failed [of c i msg] show ?thesis
    by (auto simp: consistent_def failed_def update_instance_def setError_def)
next
  case (GetResolved i d)
  from assms(1) have ok: "runs_ok c"
    by (simp add: consistent_def)
  from get_resolved_cases [OF ok, of i d] assms runs_ok_get_resolved [OF ok, of i d]
  have "consistent (get_resolved i d c)"
    by (auto simp: consistent_def update_instance_def setMetadata_def same_value_null)
  with GetResolved show ?thesis
    by simp
qed

lemma consistent_step: "consistent c \<Longrightarrow> step ev c = Inr c' \<Longrightarrow> consistent c'"
  using flush_effects_consistent [of c] consistent_handle
  by (auto simp: step_def split: sum.splits)

lemma serial_consistent: "serial c \<Longrightarrow> consistent c"
  by (induction rule: serial.induct) (auto intro: consistent_mount consistent_step)

section \<open>Superseded requests\<close>

text \<open>
  A run of the request effect is superseded when the effect runs again: the cleanup
  sets its \<^verbatim>\<open>cancelled\<close>. When its request then resolves, nothing is written.
\<close>

lemma superseded_success_is_dropped:
  assumes "awaits_get i c" and "cancelled (instances c ! i)"
  shows "viewer_state (get_resolved i d c) = viewer_state c"
  using assms by (simp add: get_resolved_def viewer_state_def update_instance_def)

text \<open>
  When its request fails, the \<^verbatim>\<open>catch\<close> block does not look at \<^verbatim>\<open>cancelled\<close>: the
  message is stored, whether the run is superseded or not.
\<close>

lemma failure_sets_error:
  assumes "awaits_call i c \<or> awaits_get i c"
  shows "error (failed i msg c) = JStr msg"
  using assms by (simp add: failed_def setError_def update_instance_def)

text \<open>
  Claim C1 says that a request which completes, with a result or with an error, after
  a second request has been issued writes nothing into the viewer state. The code
  breaks this for an error. The component is mounted with the first request and then
  gets the props of the second, which cancels run 0. The second request resolves with
  a document and the asset URL is derived from it. Then the first request fails with
  \<open>''Network Error''\<close>: the viewer state now holds the document of the second request
  together with the error of the first.
\<close>

theorem superseded_error_is_written:
  "cancelled (instances (projr (run [Props props_two False] (mount props_one False))) ! 0)
   \<and> viewer_state (projr (run [Props props_two False, GetResolved 1 doc_image, Idle]
        (mount props_one False)))
     = (doc_image, JStr (js ''https://ipfs.io/ipfs/Qm2/img.png''), JNull)
   \<and> viewer_state (projr (run [Props props_two False, GetResolved 1 doc_image, Idle,
        Failed 0 (js ''Network Error'')] (mount props_one False)))
     = (doc_image, JStr (js ''https://ipfs.io/ipfs/Qm2/img.png''), JStr (js ''Network Error''))"
  by code_simp

section \<open>The asset URL and the metadata\<close>

text \<open>
  Claim C6 says that in every reachable viewer state the asset URL is the one derived
  from the current metadata. The asset URL is set by an effect that React runs after
  the render in which \<^verbatim>\<open>metadata\<close> changed, so there is a state in between: after the
  request has resolved with a document that has an image, the document is stored and
  the asset URL is still empty.
\<close>

theorem asset_url_lags_behind_metadata:
  "reachable (projr (run [GetResolved 0 doc_image] (mount props_one False)))
   \<and> viewer_state (projr (run [GetResolved 0 doc_image] (mount props_one False)))
     = (doc_image, JStr [], JNull)
   \<and> first_present doc_image = Some (JStr (js ''ipfs://Qm2/img.png''))
   \<and> derived_url doc_image = Inr (JStr (js ''https://ipfs.io/ipfs/Qm2/img.png''))"
proof -
  have "\<not> isl (run [GetResolved 0 doc_image] (mount props_one False))"
    by code_simp
  then have r: "reachable (projr (run [GetResolved 0 doc_image] (mount props_one False)))"
    by (rule run_reachable_projr)
  have v: "viewer_state (projr (run [GetResolved 0 doc_image] (mount props_one False)))
     = (doc_image, JStr [], JNull)"
    by code_simp
  have p: "first_present doc_image = Some (JStr (js ''ipfs://Qm2/img.png''))"
    by code_simp
  have d: "derived_url doc_image = Inr (JStr (js ''https://ipfs.io/ipfs/Qm2/img.png''))"
    by code_simp
  show ?thesis
    by (intro conjI r v p d)
qed

text \<open>
  When the response of a request and a change of the props are taken by the same render,
  the request effect resets the three cells and then the metadata effect of that render,
  which still sees the document, sets the asset URL: the component is left with no
  metadata and the asset URL of the superseded request. The reset of line 119 is there
  to prevent this; it only does so when the response is rendered before the props
  change.
\<close>

lemma batched_render_keeps_stale_url:
  "reachable (projr (commit (Some (props_two, False))
      (handle (GetResolved 0 doc_image) (mount props_one False))))
   \<and> viewer_state (projr (commit (Some (props_two, False))
      (handle (GetResolved 0 doc_image) (mount props_one False))))
     = (JNull, JStr (js ''https://ipfs.io/ipfs/Qm2/img.png''), JNull)"
proof -
  let ?c = "handle (GetResolved 0 doc_image) (mount props_one False)"
  have s: "settles (GetResolved 0 doc_image)"
    by (simp only: settles.simps)
  have r1: "reachable ?c"
    by (rule reachable_settle [OF reachable_mount s])
  have "\<not> isl (commit (Some (props_two, False)) ?c)"
    by code_simp
  then have "commit (Some (props_two, False)) ?c
      = Inr (projr (commit (Some (props_two, False)) ?c))"
    by (rule sum.collapse(2) [symmetric])
  with r1 have r: "reachable (projr (commit (Some (props_two, False)) ?c))"
    by (rule reachable_commit)
  have v: "viewer_state (projr (commit (Some (props_two, False)) ?c))
      = (JNull, JStr (js ''https://ipfs.io/ipfs/Qm2/img.png''), JNull)"
    by code_simp
  show ?thesis
    by (intro conjI r v)
qed

lemma commit_None_cells:
  assumes "commit None c = Inr c'"
  shows "metadata c' = metadata c \<and> \<not> derive_due c'"
proof -
  from assms have f: "flush_effects c = Inr c'"
    by (simp add: flush_effects_commit)
  then have nd: "\<not> derive_due c'"
    by (rule flush_effects_not_due)
  from f have "metadata c' = metadata c"
    by (auto simp: flush_effects_def metadata_effect_def dest: metadata_effect_of_cells
        split: if_splits)
  with nd show ?thesis
    by simp
qed

text \<open>
  Claim C6, as amended. The asset URL is derived by an effect that runs after every
  render in which the metadata changed, not synchronously. In every reachable viewer
  state in which that effect is not due and the current metadata has a truthy asset
  field, the asset URL is derived from the current metadata, not from a stale one: it is
  the normalized first truthy asset field. A render without a change of the props runs
  the effect and leaves the metadata as it is. When every event is rendered on its own,
  the asset URL is moreover empty while the effect is due, and when the effect is not
  due it is the one derived from the current metadata in every case, so empty when the
  metadata is absent or has no truthy asset field.
\<close>

theorem asset_url_follows_metadata:
  "(reachable c \<and> \<not> derive_due c \<and> truthy (metadata c) \<and> first_asset (metadata c) = Some f \<longrightarrow>
      ipfsToHttp f = Inr (assetUrl c))
   \<and> (reachable c \<and> commit None c = Inr c' \<longrightarrow>
      reachable c' \<and> metadata c' = metadata c \<and> \<not> derive_due c')
   \<and> (serial c \<longrightarrow>
      reachable c \<and> (derive_due c \<longrightarrow> assetUrl c = JStr [])
      \<and> (\<not> derive_due c \<longrightarrow> derived_url (metadata c) = Inr (assetUrl c)))"
proof (intro conjI impI)
  assume h: "reachable c \<and> \<not> derive_due c \<and> truthy (metadata c)
    \<and> first_asset (metadata c) = Some f"
  then have "coherent c"
    by (simp add: reachable_coherent)
  with h have "derived_url (metadata c) = Inr (assetUrl c)"
    by (simp add: coherent_def)
  with h show "ipfsToHttp f = Inr (assetUrl c)"
    by (simp add: derived_url_def)
next
  assume h: "reachable c \<and> commit None c = Inr c'"
  then show "reachable c'"
    using reachable_commit by blast
  from h commit_None_cells show "metadata c' = metadata c" and "\<not> derive_due c'"
    by blast+
next
  assume "serial c"
  then show "reachable c"
    by (rule serial_reachable)
next
  assume "serial c" and "derive_due c"
  then show "assetUrl c = JStr []"
    using serial_consistent by (auto simp: consistent_def)
next
  assume "serial c" and "\<not> derive_due c"
  then show "derived_url (metadata c) = Inr (assetUrl c)"
    using serial_consistent by (auto simp: consistent_def)
qed

text \<open>
  The amended claim at the state after the request has resolved and the metadata effect
  has run, and at the render that runs the effect.
\<close>

theorem asset_url_follows_metadata_witness:
  "serial (projr (run [GetResolved 0 doc_image, Idle] (mount props_one False)))
   \<and> reachable (projr (run [GetResolved 0 doc_image, Idle] (mount props_one False)))
   \<and> \<not> derive_due (projr (run [GetResolved 0 doc_image, Idle] (mount props_one False)))
   \<and> truthy (metadata (projr (run [GetResolved 0 doc_image, Idle] (mount props_one False))))
   \<and> first_asset (metadata (projr (run [GetResolved 0 doc_image, Idle] (mount props_one False))))
     = Some (JStr (js ''ipfs://Qm2/img.png''))
   \<and> ipfsToHttp (JStr (js ''ipfs://Qm2/img.png''))
     = Inr (assetUrl (projr (run [GetResolved 0 doc_image, Idle] (mount props_one False))))
   \<and> derived_url (metadata (projr (run [GetResolved 0 doc_image, Idle] (mount props_one False))))
     = Inr (assetUrl (projr (run [GetResolved 0 doc_image, Idle] (mount props_one False))))
   \<and> assetUrl (projr (run [GetResolved 0 doc_image, Idle] (mount props_one False)))
     = JStr (js ''https://ipfs.io/ipfs/Qm2/img.png'')
   \<and> reachable (projr (run [GetResolved 0 doc_image] (mount props_one False)))
   \<and> commit None (projr (run [GetResolved 0 doc_image] (mount props_one False)))
     = Inr (projr (commit None (projr (run [GetResolved 0 doc_image] (mount props_one False)))))
   \<and> \<not> derive_due
       (projr (commit None (projr (run [GetResolved 0 doc_image] (mount props_one False)))))"
proof -
  let ?c = "projr (run [GetResolved 0 doc_image, Idle] (mount props_one False))"
  let ?f = "JStr (js ''ipfs://Qm2/img.png'')"
  let ?l = "projr (run [GetResolved 0 doc_image] (mount props_one False))"
  let ?l' = "projr (commit None ?l)"
  have "\<not> isl (run [GetResolved 0 doc_image, Idle] (mount props_one False))"
    by code_simp
  then have s: "serial ?c"
    by (rule run_serial_projr)
  have nd: "\<not> derive_due ?c"
    by code_simp
  have t: "truthy (metadata ?c)"
    by code_simp
  have fa: "first_asset (metadata ?c) = Some ?f"
    by code_simp
  have a: "assetUrl ?c = JStr (js ''https://ipfs.io/ipfs/Qm2/img.png'')"
    by code_simp
  note at_c = asset_url_follows_metadata [of ?c ?f ?l']
  note r = at_c [THEN conjunct2, THEN conjunct2, THEN mp, OF s, THEN conjunct1]
  note d = at_c [THEN conjunct2, THEN conjunct2, THEN mp, OF s, THEN conjunct2,
    THEN conjunct2, THEN mp, OF nd]
  note u = at_c [THEN conjunct1, THEN mp, OF conjI [OF r conjI [OF nd conjI [OF t fa]]]]
  have "\<not> isl (run [GetResolved 0 doc_image] (mount props_one False))"
    by code_simp
  then have rl: "reachable ?l"
    by (rule run_reachable_projr)
  have "\<not> isl (commit None ?l)"
    by code_simp
  then have cl: "commit None ?l = Inr ?l'"
    by (rule sum.collapse(2) [symmetric])
  note at_l = asset_url_follows_metadata [of ?l ?f ?l']
  note ndl = at_l [THEN conjunct2, THEN conjunct1, THEN mp, OF conjI [OF rl cl],
    THEN conjunct2, THEN conjunct2]
  show ?thesis
    by (intro conjI s r nd t fa u d a rl cl ndl)
qed

section \<open>Acquisition\<close>

lemma started_eq:
  "started p w c =
     (if metadataUrl p \<noteq> [] then Some (HttpGet (rewrite_ipfs (metadataUrl p)))
      else if contractAddress p \<noteq> [] \<and> tokenId p \<noteq> [] then
        (if providerUrl p \<noteq> []
         then Some (TokenURI (contractAddress p) (tokenId p) (JsonRpcProvider (providerUrl p)))
         else if w then Some (TokenURI (contractAddress p) (tokenId p) Web3Provider)
         else None)
      else None)"
  by (simp add: started_def request_defs)

lemma no_provider_error:
  assumes "metadataUrl p = []" and "contractAddress p \<noteq> []" and "tokenId p \<noteq> []"
    and "providerUrl p = []"
  shows "error (request_effect p False c) = JStr no_provider_message
    \<and> metadata (request_effect p False c) = JNull"
  using assms by (simp add: request_defs)

lemma flush_effects_null:
  "metadata c = JNull \<Longrightarrow> flush_effects c = Inr (c\<lparr>derive_due := False\<rparr>)"
  by (cases c) (auto simp: flush_effects_def metadata_effect_def metadata_effect_of_def)

lemma failed_latest:
  assumes "reachable c" and "awaits_call (latest c) c \<or> awaits_get (latest c) c"
  shows "\<exists>c'. step (Failed (latest c) msg) c = Inr c' \<and> error c' = JStr msg
    \<and> metadata c' = JNull"
proof -
  from assms(1) have c: "runs_ok c"
    using reachable_coherent by (simp add: coherent_def)
  with assms(2) have null: "metadata c = JNull"
    using awaits_latest_null by blast
  let ?c1 = "c\<lparr>derive_due := False\<rparr>"
  have aw: "awaits_call (latest c) ?c1 \<or> awaits_get (latest c) ?c1"
    using assms(2) by (simp add: awaits_call_def awaits_get_def)
  have "step (Failed (latest c) msg) c = Inr (failed (latest c) msg ?c1)"
    by (simp add: step_def flush_effects_null [OF null])
  moreover have "error (failed (latest c) msg ?c1) = JStr msg"
    using aw by (simp add: failed_def setError_def update_instance_def)
  moreover have "metadata (failed (latest c) msg ?c1) = JNull"
    using null by (simp add: failed_def setError_def update_instance_def)
  ultimately show ?thesis
    by blast
qed

text \<open>
  Claim C7 says that every acquisition-stage error is recorded in \<^verbatim>\<open>error\<close> and
  leaves \<^verbatim>\<open>metadata\<close> absent. For an error of a superseded request the second part
  fails. The component is mounted with a request by contract (run 0, suspended on the
  contract call) and then gets the props of a request by direct URL (run 1), which
  resolves with a document. When the contract call of run 0 then fails, its
  \<^verbatim>\<open>catch\<close> block stores the message, and the metadata is the document of run 1.
\<close>

theorem superseded_error_beside_metadata:
  "reachable (projr (run [Props props_two False, GetResolved 1 doc_image, Idle]
      (mount props_contract True)))
   \<and> awaits_call 0 (projr (run [Props props_two False, GetResolved 1 doc_image, Idle]
      (mount props_contract True)))
   \<and> latest (projr (run [Props props_two False, GetResolved 1 doc_image, Idle]
      (mount props_contract True))) = 1
   \<and> viewer_state (projr (step (Failed 0 (js ''call revert exception''))
        (projr (run [Props props_two False, GetResolved 1 doc_image, Idle]
          (mount props_contract True)))))
     = (doc_image, JStr (js ''https://ipfs.io/ipfs/Qm2/img.png''),
        JStr (js ''call revert exception''))"
proof -
  let ?evs = "[Props props_two False, GetResolved 1 doc_image, Idle]"
  let ?c = "projr (run ?evs (mount props_contract True))"
  have "\<not> isl (run ?evs (mount props_contract True))"
    by code_simp
  then have r: "reachable ?c"
    by (rule run_reachable_projr)
  have a: "awaits_call 0 ?c"
    by code_simp
  have l: "latest ?c = 1"
    by code_simp
  have v: "viewer_state (projr (step (Failed 0 (js ''call revert exception'')) ?c))
      = (doc_image, JStr (js ''https://ipfs.io/ipfs/Qm2/img.png''),
         JStr (js ''call revert exception''))"
    by code_simp
  show ?thesis
    by (intro conjI r a l v)
qed

text \<open>
  Claim C7, as amended. A request by contract and token id with neither a provider URL
  nor an injected wallet fails with the error \<^emph>\<open>No provider available\<close>: no operation
  is started, the message is stored in \<^verbatim>\<open>error\<close> and \<^verbatim>\<open>metadata\<close> stays
  \<^verbatim>\<open>null\<close>. And when the operation that the latest run, the one that is not
  superseded, is suspended on (the contract call or the request) fails, the error is
  caught: the step goes through, the message of the error is stored in \<^verbatim>\<open>error\<close>,
  and \<^verbatim>\<open>metadata\<close> is \<^verbatim>\<open>null\<close>.
\<close>

theorem acquisition_errors_recorded:
  "(metadataUrl p = [] \<and> contractAddress p \<noteq> [] \<and> tokenId p \<noteq> [] \<and> providerUrl p = [] \<longrightarrow>
      started p False c0 = None
      \<and> error (request_effect p False c0) = JStr no_provider_message
      \<and> metadata (request_effect p False c0) = JNull)
   \<and> (reachable c \<and> (awaits_call (latest c) c \<or> awaits_get (latest c) c) \<longrightarrow>
      (\<exists>c'. step (Failed (latest c) msg) c = Inr c' \<and> error c' = JStr msg
         \<and> metadata c' = JNull)
      \<and> error (handle (Failed (latest c) msg) c) = JStr msg
      \<and> metadata (handle (Failed (latest c) msg) c) = JNull)"
proof (intro conjI impI)
  assume h: "metadataUrl p = [] \<and> contractAddress p \<noteq> [] \<and> tokenId p \<noteq> [] \<and> providerUrl p = []"
  then show "started p False c0 = None"
    by (simp add: started_eq)
  from h no_provider_error [of p c0]
  show "error (request_effect p False c0) = JStr no_provider_message"
    and "metadata (request_effect p False c0) = JNull"
    by blast+
next
  assume h: "reachable c \<and> (awaits_call (latest c) c \<or> awaits_get (latest c) c)"
  then show "\<exists>c'. step (Failed (latest c) msg) c = Inr c' \<and> error c' = JStr msg
    \<and> metadata c' = JNull"
    using failed_latest by blast
  from h show "error (handle (Failed (latest c) msg) c) = JStr msg"
    by (simp add: failure_sets_error)
  from h have "runs_ok c"
    using reachable_coherent by (simp add: coherent_def)
  with h have "metadata c = JNull"
    using awaits_latest_null by blast
  then show "metadata (handle (Failed (latest c) msg) c) = JNull"
    by (simp add: failed_def setError_def update_instance_def)
qed

text \<open>
  The amended claim at a mount by contract without a provider, and at the failure of the
  request of a component mounted with a direct URL.
\<close>

theorem acquisition_errors_recorded_witness:
  "error (request_effect props_contract False initial) = JStr no_provider_message
   \<and> reachable (mount props_one False)
   \<and> awaits_get (latest (mount props_one False)) (mount props_one False)
   \<and> (\<exists>c'. step (Failed (latest (mount props_one False)) (js ''Network Error''))
          (mount props_one False) = Inr c'
        \<and> error c' = JStr (js ''Network Error'') \<and> metadata c' = JNull)
   \<and> metadata (handle (Failed (latest (mount props_one False)) (js ''Network Error''))
        (mount props_one False)) = JNull"
proof -
  have h1: "metadataUrl props_contract = [] \<and> contractAddress props_contract \<noteq> []
      \<and> tokenId props_contract \<noteq> [] \<and> providerUrl props_contract = []"
    by code_simp
  have h2: "reachable (mount props_one False)"
    by (rule reachable_mount)
  have h3: "awaits_get (latest (mount props_one False)) (mount props_one False)"
    by code_simp
  note t = acquisition_errors_recorded
    [of props_contract initial "mount props_one False" "js ''Network Error''"]
  note a = t [THEN conjunct1, THEN mp, OF h1, THEN conjunct2, THEN conjunct1]
  note b = t [THEN conjunct2, THEN mp, OF conjI [OF h2 disjI2 [OF h3]]]
  note b1 = b [THEN conjunct1]
  note b3 = b [THEN conjunct2, THEN conjunct2]
  show ?thesis
    by (intro conjI a h2 h3 b1 b3)
qed

text \<open>
  Claim C9. When a direct metadata URL is given, the request effect starts the request
  for that URL (normalized) and nothing else, whatever the contract address and token
  id are. A contract call is started only when no direct URL is given and both the
  contract address and the token id are given; then it is started whenever a provider
  URL or an injected wallet is there.
\<close>

theorem direct_url_takes_priority:
  "(metadataUrl p \<noteq> [] \<longrightarrow> started p w c = Some (HttpGet (rewrite_ipfs (metadataUrl p))))
   \<and> (started p w c = Some (TokenURI a t pr) \<longrightarrow>
        metadataUrl p = [] \<and> contractAddress p \<noteq> [] \<and> tokenId p \<noteq> []
        \<and> a = contractAddress p \<and> t = tokenId p)
   \<and> (metadataUrl p = [] \<and> contractAddress p \<noteq> [] \<and> tokenId p \<noteq> []
        \<and> (providerUrl p \<noteq> [] \<or> w) \<longrightarrow>
        (\<exists>pr. started p w c = Some (TokenURI (contractAddress p) (tokenId p) pr)))
   \<and> (error (request_effect p w c) = JStr no_provider_message \<longrightarrow>
        metadataUrl p = [] \<and> contractAddress p \<noteq> [] \<and> tokenId p \<noteq> [])"
proof -
  have "error (request_effect p w c) = JStr no_provider_message \<longrightarrow>
        metadataUrl p = [] \<and> contractAddress p \<noteq> [] \<and> tokenId p \<noteq> []"
    by (auto simp: request_defs split: if_splits)
  then show ?thesis
    by (auto simp: started_eq split: if_splits)
qed

text \<open>
  Claim C9 at props that give a direct URL together with a contract address and a token
  id, and at props that give the contract address and token id only.
\<close>

theorem direct_url_takes_priority_witness:
  "metadataUrl (props_contract\<lparr>metadataUrl := js ''ipfs://m/1.json''\<rparr>) \<noteq> []
   \<and> started (props_contract\<lparr>metadataUrl := js ''ipfs://m/1.json''\<rparr>) True initial
     = Some (HttpGet (rewrite_ipfs
         (metadataUrl (props_contract\<lparr>metadataUrl := js ''ipfs://m/1.json''\<rparr>))))
   \<and> rewrite_ipfs (metadataUrl (props_contract\<lparr>metadataUrl := js ''ipfs://m/1.json''\<rparr>))
     = js ''https://ipfs.io/ipfs/m/1.json''
   \<and> started props_contract True initial = Some (TokenURI (js ''0xabc'') (js ''7'') Web3Provider)
   \<and> metadataUrl props_contract = []"
proof -
  let ?p = "props_contract\<lparr>metadataUrl := js ''ipfs://m/1.json''\<rparr>"
  have h1: "metadataUrl ?p \<noteq> []"
    by code_simp
  have r: "rewrite_ipfs (metadataUrl ?p) = js ''https://ipfs.io/ipfs/m/1.json''"
    by code_simp
  have s: "started props_contract True initial
      = Some (TokenURI (js ''0xabc'') (js ''7'') Web3Provider)"
    by code_simp
  note a = direct_url_takes_priority [of ?p True initial, THEN conjunct1, THEN mp, OF h1]
  note b = direct_url_takes_priority
    [of props_contract True initial "js ''0xabc''" "js ''7''" Web3Provider,
      THEN conjunct2, THEN conjunct1, THEN mp, OF s, THEN conjunct1]
  show ?thesis
    by (intro conjI h1 a r s b)
qed

section \<open>Quick actions\<close>

text \<open>
  Claim C8 says that both quick actions do nothing when the asset URL is empty. Neither
  handler tests the asset URL: with an empty URL the copy button writes the empty string
  to the clipboard, and the open button opens a new browsing context for the empty URL.
\<close>

theorem quick_actions_on_empty_url:
  "copy_click True (JStr []) = [ClipboardWriteText (JStr [])]
   \<and> open_click (JStr []) = [WindowOpen (JStr []) (js ''_blank'')]"
  by (simp add: copy_click_def open_click_def)

text \<open>
  Claim C8, as amended. For every asset URL, empty or not, the copy button writes the
  URL to the clipboard when the browser has a clipboard (and does nothing when it has
  none), and the open button opens the URL in a new browsing context.
\<close>

theorem quick_actions_unconditional:
  "copy_click True (JStr u) = [ClipboardWriteText (JStr u)]
   \<and> copy_click False (JStr u) = []
   \<and> open_click (JStr u) = [WindowOpen (JStr u) (js ''_blank'')]"
  by (simp add: copy_click_def open_click_def)

text \<open>The amended claim at the URL \<open>''a.png''\<close> and at the empty URL.\<close>

theorem quick_actions_unconditional_witness:
  "copy_click True (JStr (js ''a.png'')) = [ClipboardWriteText (JStr (js ''a.png''))]
   \<and> open_click (JStr []) \<noteq> []"
  using quick_actions_unconditional [of "js ''a.png''"] quick_actions_unconditional [of "[]"]
  by simp

end
